theory Spec2Isabelle
  imports Main "HOL-Library.AList" "HOL-Library.Char_ord" "HOL-Library.List_Lexorder"
    "HOL-Library.Multiset"
begin

section \<open>The repository on disk and the Repository object\<close>

text \<open>
  The program keeps all of its state in files under \<^verbatim>\<open>.myvcs\<close> and in the working
  directory. The model is a record of what those files hold, together with the one
  attribute of the \<^verbatim>\<open>Repository\<close> object (\<^verbatim>\<open>self.head\<close>) and the lines printed so far.

  \<^item> A string is a list of characters; text read from a file is the string \<^verbatim>\<open>f.read()\<close>
    returns, the bytes of an object or of a working file are a string as well.
  \<^item> A name under \<^verbatim>\<open>.myvcs/branches\<close> and a path of the working tree may be a regular
    file, a directory or missing: \<open>Some (File c)\<close>, \<open>Some Dir\<close>, \<open>None\<close>. Opening a
    directory raises \<^verbatim>\<open>IsADirectoryError\<close>, opening a missing file for reading raises
    \<^verbatim>\<open>FileNotFoundError\<close>.
  \<^item> \<open>commits r h\<close> is the record held by \<^verbatim>\<open>.myvcs/commits/<h>.json\<close>, \<open>objects r h\<close> the
    bytes of \<^verbatim>\<open>.myvcs/objects/<h>\<close>, \<open>index_file r\<close> the mapping held by
    \<^verbatim>\<open>.myvcs/index\<close> in the order of its keys, \<open>head_file r\<close> the text of \<^verbatim>\<open>.myvcs/HEAD\<close>;
    \<open>None\<close> is a file that does not exist.
  \<^item> \<open>worktree r\<close> holds every other entry below the working directory, under its path
    from there with the names joined by slashes. \<^verbatim>\<open>add\<close> and \<^verbatim>\<open>status\<close> look a path up as it
    is written; \<^verbatim>\<open>checkout\<close> and \<^verbatim>\<open>branch\<close>, which take a name from the user and write, resolve
    it name by name as the operating system does (section Paths).
  \<^item> \<open>Unmodelled\<close> is no exception of Python: it ends a run at a place about which the
    record says nothing (a path that leaves the working directory, the text of a JSON file
    read as a pointer or as an object, a text written over a JSON file, a file without JSON
    read as a commit).
  \<^item> \<^verbatim>\<open>hashlib.sha1(...).hexdigest()\<close>, the text \<^verbatim>\<open>json.dumps\<close> renders for a JSON value
    and the reading of the clock are parameters (\<open>sha1\<close>, \<open>dumps\<close>, \<open>now\<close>).
\<close>

datatype py_error =
    TypeError | FileNotFoundError | IsADirectoryError | NotADirectoryError | ValueError
  | SameFileError
  | Unmodelled

datatype node = File string | Dir

record commit_record =
  message :: string
  timestamp :: string
  files :: "(string \<times> string) list"
  parent :: "string option"

record repo =
  head :: "string option"
  head_file :: "string option"
  index_file :: "(string \<times> string) list option"
  commits :: "string \<rightharpoonup> commit_record"
  objects :: "string \<rightharpoonup> string"
  branches :: "string \<rightharpoonup> node"
  worktree :: "(string \<times> node) list"
  out :: "string list"

definition py_print :: "string \<Rightarrow> repo \<Rightarrow> repo" where
  "py_print line r = r\<lparr>out := out r @ [line]\<rparr>"

subsection \<open>Strings\<close>

text \<open>\<^verbatim>\<open>str.isspace\<close> on the characters below 256, and \<^verbatim>\<open>str.strip()\<close>.\<close>

definition is_space :: "char \<Rightarrow> bool" where
  "is_space c = (c \<in> set [CHR 0x09, CHR 0x0A, CHR 0x0B, CHR 0x0C, CHR 0x0D,
                           CHR 0x1C, CHR 0x1D, CHR 0x1E, CHR 0x1F, CHR 0x20,
                           CHR 0x85, CHR 0xA0])"

definition strip :: "string \<Rightarrow> string" where
  "strip s = rev (dropWhile is_space (rev (dropWhile is_space s)))"


text \<open>Truth value of an optional string: \<^verbatim>\<open>None\<close> and \<^verbatim>\<open>""\<close> are false.\<close>

fun truthy :: "string option \<Rightarrow> bool" where
  "truthy None = False"
| "truthy (Some s) = (s \<noteq> [])"

text \<open>An optional string inside an f-string: \<^verbatim>\<open>None\<close> prints as \<^verbatim>\<open>None\<close>.\<close>

fun fmt :: "string option \<Rightarrow> string" where
  "fmt None = ''None''"
| "fmt (Some s) = s"

subsection \<open>HEAD, branch pointers and the index\<close>

definition load_head :: "repo \<Rightarrow> repo" where
  "load_head r =
     (case head_file r of
        Some t \<Rightarrow> r\<lparr>head := Some (strip t)\<rparr>
      | None \<Rightarrow> r\<lparr>head := Some ''master''\<rparr>)"

text \<open>
  \<^verbatim>\<open>save_head\<close> opens HEAD for writing, which empties it, and then writes \<^verbatim>\<open>self.head\<close>;
  \<^verbatim>\<open>f.write(None)\<close> raises \<^verbatim>\<open>TypeError\<close> and leaves the emptied file behind.
\<close>

definition save_head :: "repo \<Rightarrow> py_error option \<times> repo" where
  "save_head r =
     (case head r of
        None \<Rightarrow> (Some TypeError, r\<lparr>head_file := Some []\<rparr>)
      | Some h \<Rightarrow> (None, r\<lparr>head_file := Some h\<rparr>))"

text \<open>\<^verbatim>\<open>os.path.join(self.branches_path, None)\<close> raises \<^verbatim>\<open>TypeError\<close>.\<close>

definition get_current_commit :: "repo \<Rightarrow> py_error + string option" where
  "get_current_commit r =
     (case head r of
        None \<Rightarrow> Inl TypeError
      | Some b \<Rightarrow>
          (case branches r b of
             None \<Rightarrow> Inr None
           | Some Dir \<Rightarrow> Inl IsADirectoryError
           | Some (File t) \<Rightarrow> Inr (Some (strip t))))"

definition update_branch :: "string \<Rightarrow> repo \<Rightarrow> py_error option \<times> repo" where
  "update_branch commit_hash r =
     (case head r of
        None \<Rightarrow> (Some TypeError, r)
      | Some b \<Rightarrow>
          (case branches r b of
             Some Dir \<Rightarrow> (Some IsADirectoryError, r)
           | _ \<Rightarrow> (None, r\<lparr>branches := (branches r)(b \<mapsto> File commit_hash)\<rparr>)))"

definition read_index :: "repo \<Rightarrow> (string \<times> string) list" where
  "read_index r = (case index_file r of Some index \<Rightarrow> index | None \<Rightarrow> [])"

definition write_index :: "(string \<times> string) list \<Rightarrow> repo \<Rightarrow> repo" where
  "write_index index r = r\<lparr>index_file := Some index\<rparr>"

subsection \<open>add\<close>

text \<open>
  The loop of \<^verbatim>\<open>add\<close> over its arguments, with the local \<^verbatim>\<open>index\<close>. \<^verbatim>\<open>index[file] = sha\<close>
  replaces the value of a key that is present and appends a new key otherwise, which is
  \<open>AList.update\<close>. An exception leaves the loop before the index is written.
\<close>

fun add_loop ::
  "(string \<Rightarrow> string) \<Rightarrow> string list \<Rightarrow> (string \<times> string) list \<Rightarrow> repo \<Rightarrow>
     (py_error + (string \<times> string) list) \<times> repo" where
  "add_loop sha1 [] index r = (Inr index, r)"
| "add_loop sha1 (file # rest) index r =
     (case map_of (worktree r) file of
        None \<Rightarrow>
          add_loop sha1 rest index
            (py_print (''Warning: File '' @ [CHR 0x27] @ file @ [CHR 0x27] @ '' does not exist.'') r)
      | Some Dir \<Rightarrow> (Inl IsADirectoryError, r)
      | Some (File content) \<Rightarrow>
          (let sha = sha1 content;
               index' = AList.update file sha index;
               r' = (if objects r sha = None
                     then r\<lparr>objects := (objects r)(sha \<mapsto> content)\<rparr> else r)
           in add_loop sha1 rest index'
                (py_print (''Added '' @ [CHR 0x27] @ file @ [CHR 0x27]) r')))"

definition add :: "(string \<Rightarrow> string) \<Rightarrow> string list \<Rightarrow> repo \<Rightarrow> py_error option \<times> repo" where
  "add sha1 fs r =
     (case add_loop sha1 fs (read_index r) r of
        (Inl e, r') \<Rightarrow> (Some e, r')
      | (Inr index, r') \<Rightarrow> (None, write_index index r'))"

subsection \<open>commit\<close>

text \<open>
  The dictionary \<^verbatim>\<open>commit\<close> as a JSON value, in the order its keys are written, and
  \<^verbatim>\<open>json.dumps(commit, sort_keys=True)\<close>: every object is rendered with its members
  sorted by key. Keys are compared as Python compares strings, character by character.
\<close>

datatype json = JNull | JString string | JObject "(string \<times> json) list"

fun sort_keys :: "json \<Rightarrow> json" where
  "sort_keys (JObject members) =
     JObject (sort_key fst (map (\<lambda>(k, v). (k, sort_keys v)) members))"
| "sort_keys j = j"

definition commit_dict :: "commit_record \<Rightarrow> json" where
  "commit_dict c =
     JObject [(''message'', JString (message c)),
              (''timestamp'', JString (timestamp c)),
              (''files'', JObject (map (\<lambda>(k, v). (k, JString v)) (files c))),
              (''parent'', (case parent c of None \<Rightarrow> JNull | Some p \<Rightarrow> JString p))]"

definition commit_data :: "(json \<Rightarrow> string) \<Rightarrow> commit_record \<Rightarrow> string" where
  "commit_data dumps c = dumps (sort_keys (commit_dict c))"

definition commit_hash_of ::
  "(string \<Rightarrow> string) \<Rightarrow> (json \<Rightarrow> string) \<Rightarrow> commit_record \<Rightarrow> string" where
  "commit_hash_of sha1 dumps c = sha1 (commit_data dumps c)"

text \<open>
  What \<^verbatim>\<open>read_json\<close> returns from a commit file: the file holds the text of
  \<open>commit_data\<close>, so the file map comes back in the order it was written, sorted by path.
\<close>

definition stored :: "commit_record \<Rightarrow> commit_record" where
  "stored c = c\<lparr>files := sort_key fst (files c)\<rparr>"

definition commit ::
  "(string \<Rightarrow> string) \<Rightarrow> (json \<Rightarrow> string) \<Rightarrow> string \<Rightarrow> string \<Rightarrow> repo \<Rightarrow>
     py_error option \<times> repo" where
  "commit sha1 dumps now msg r =
     (let index = read_index r in
      if index = [] then (None, py_print ''Nothing to commit, staging area is empty.'' r)
      else
        (case get_current_commit r of
           Inl e \<Rightarrow> (Some e, r)
         | Inr p \<Rightarrow>
             (let c = \<lparr>message = msg, timestamp = now @ ''Z'', files = index, parent = p\<rparr>;
                  commit_hash = commit_hash_of sha1 dumps c;
                  r1 = r\<lparr>commits := (commits r)(commit_hash \<mapsto> stored c)\<rparr>
              in (case update_branch commit_hash r1 of
                    (Some e, r2) \<Rightarrow> (Some e, r2)
                  | (None, r2) \<Rightarrow>
                      (None,
                       py_print (''Committed to '' @ fmt (head r) @ '': '' @ take 7 commit_hash
                                 @ '' - '' @ msg)
                         (write_index [] r2))))))"

subsection \<open>log\<close>



subsection \<open>status\<close>







subsection \<open>Paths\<close>

text \<open>
  \<^verbatim>\<open>os.path.join\<close> of two strings, \<^verbatim>\<open>path.split("/")\<close> and \<^verbatim>\<open>"/".join(names)\<close>.
\<close>

definition join :: "string \<Rightarrow> string \<Rightarrow> string" where
  "join a b =
     (if b \<noteq> [] \<and> hd b = CHR ''/'' then b
      else if a = [] \<or> last a = CHR ''/'' then a @ b
      else a @ ''/'' @ b)"

fun components :: "string \<Rightarrow> string list" where
  "components [] = [[]]"
| "components (c # cs) =
     (if c = CHR ''/'' then [] # components cs
      else (case components cs of [] \<Rightarrow> [[c]] | x # xs \<Rightarrow> (c # x) # xs))"

fun joined :: "string list \<Rightarrow> string" where
  "joined [] = []"
| "joined [x] = x"
| "joined (x # y # ys) = x @ ''/'' @ joined (y # ys)"

definition branches_path :: string where
  "branches_path = join ''.myvcs'' ''branches''"

definition commits_path :: string where
  "commits_path = join ''.myvcs'' ''commits''"

definition objects_path :: string where
  "objects_path = join ''.myvcs'' ''objects''"

text \<open>
  A location is the list of names that lead to it from the working directory. The record
  keeps HEAD, the index, the commit files \<^verbatim>\<open><h>.json\<close>, the objects and the entries below
  \<^verbatim>\<open>.myvcs/branches\<close> in fields of their own; the working directory, \<^verbatim>\<open>.myvcs\<close> and its three
  directories exist in every repository; every other location is looked up in
  \<open>worktree\<close>.
\<close>

definition json_stem :: "string \<Rightarrow> string option" where
  "json_stem f =
     (if 5 \<le> length f \<and> drop (length f - 5) f = ''.json''
      then Some (take (length f - 5) f) else None)"

datatype place =
    Directory | Head_file | Index_file
  | Commit_file string | Object_file string | Branch_entry string | Other_entry string

definition place_of :: "string list \<Rightarrow> place" where
  "place_of loc =
     (if loc = [] \<or> loc = [''.myvcs''] \<or> loc = [''.myvcs'', ''commits'']
         \<or> loc = [''.myvcs'', ''objects''] \<or> loc = [''.myvcs'', ''branches'']
      then Directory
      else if loc = [''.myvcs'', ''HEAD''] then Head_file
      else if loc = [''.myvcs'', ''index''] then Index_file
      else if take 2 loc = [''.myvcs'', ''branches''] then Branch_entry (joined (drop 2 loc))
      else
        (case loc of
           [a, b, c] \<Rightarrow>
             if a = ''.myvcs'' \<and> b = ''objects'' then Object_file c
             else if a = ''.myvcs'' \<and> b = ''commits'' then
               (case json_stem c of Some h \<Rightarrow> Commit_file h | None \<Rightarrow> Other_entry (joined loc))
             else Other_entry (joined loc)
         | _ \<Rightarrow> Other_entry (joined loc)))"

text \<open>What is found at a location: a directory, a file with its text, or a JSON file.\<close>

datatype entry = Is_dir | Is_text string | Is_json

definition node_at :: "repo \<Rightarrow> string list \<Rightarrow> entry option" where
  "node_at r loc =
     (case place_of loc of
        Directory \<Rightarrow> Some Is_dir
      | Head_file \<Rightarrow> map_option Is_text (head_file r)
      | Index_file \<Rightarrow> (case index_file r of None \<Rightarrow> None | Some index \<Rightarrow> Some Is_json)
      | Commit_file h \<Rightarrow> (case commits r h of None \<Rightarrow> None | Some c \<Rightarrow> Some Is_json)
      | Object_file s \<Rightarrow> map_option Is_text (objects r s)
      | Branch_entry b \<Rightarrow>
          (case branches r b of
             None \<Rightarrow> None | Some Dir \<Rightarrow> Some Is_dir | Some (File t) \<Rightarrow> Some (Is_text t))
      | Other_entry p \<Rightarrow>
          (case map_of (worktree r) p of
             None \<Rightarrow> None | Some Dir \<Rightarrow> Some Is_dir | Some (File t) \<Rightarrow> Some (Is_text t)))"

text \<open>
  The walk of the operating system along the names of a path, without symbolic links:
  every name but the last is looked up in a directory that must exist; an empty name and
  a dot stay, two dots go up. Above the working directory the record ends.
\<close>

datatype lookup = Found "string list" | Fails py_error | Outside

fun walk :: "repo \<Rightarrow> string list \<Rightarrow> string list \<Rightarrow> lookup" where
  "walk r cur [] = Found cur"
| "walk r cur (c # cs) =
     (case node_at r cur of
        None \<Rightarrow> Fails FileNotFoundError
      | Some Is_dir \<Rightarrow>
          (if c = [] \<or> c = ''.'' then walk r cur cs
           else if c = ''..'' then (if cur = [] then Outside else walk r (butlast cur) cs)
           else walk r (cur @ [c]) cs)
      | Some e \<Rightarrow> Fails NotADirectoryError)"

definition resolve :: "repo \<Rightarrow> string \<Rightarrow> lookup" where
  "resolve r path =
     (if path = [] then Fails FileNotFoundError
      else if CHR 0x00 \<in> set path then Fails ValueError
      else if hd path = CHR ''/'' then Outside
      else walk r [] (components path))"

text \<open>\<^verbatim>\<open>os.path.exists(path)\<close>: false whenever the lookup fails.\<close>

definition path_exists :: "repo \<Rightarrow> string \<Rightarrow> py_error + bool" where
  "path_exists r path =
     (case resolve r path of
        Found loc \<Rightarrow> Inr (node_at r loc \<noteq> None)
      | Fails e \<Rightarrow> Inr False
      | Outside \<Rightarrow> Inl Unmodelled)"

text \<open>\<^verbatim>\<open>open(path).read()\<close>.\<close>

definition read_text :: "repo \<Rightarrow> string \<Rightarrow> py_error + string" where
  "read_text r path =
     (case resolve r path of
        Fails e \<Rightarrow> Inl e
      | Outside \<Rightarrow> Inl Unmodelled
      | Found loc \<Rightarrow>
          (case node_at r loc of
             None \<Rightarrow> Inl FileNotFoundError
           | Some Is_dir \<Rightarrow> Inl IsADirectoryError
           | Some (Is_text t) \<Rightarrow> Inr t
           | Some Is_json \<Rightarrow> Inl Unmodelled))"

text \<open>A text put at a location; the index and the commit files hold JSON only.\<close>

definition store_at :: "string list \<Rightarrow> string \<Rightarrow> repo \<Rightarrow> repo option" where
  "store_at loc text r =
     (case place_of loc of
        Head_file \<Rightarrow> Some (r\<lparr>head_file := Some text\<rparr>)
      | Object_file s \<Rightarrow> Some (r\<lparr>objects := (objects r)(s \<mapsto> text)\<rparr>)
      | Branch_entry b \<Rightarrow> Some (r\<lparr>branches := (branches r)(b \<mapsto> File text)\<rparr>)
      | Other_entry p \<Rightarrow> Some (r\<lparr>worktree := AList.update p (File text) (worktree r)\<rparr>)
      | _ \<Rightarrow> None)"

text \<open>
  \<^verbatim>\<open>open(path, "w")\<close> followed by the write of a string. The directories before the last
  name are walked; the file is created in the directory found, or emptied when it is
  there. With the flag to create, Linux answers a last name that is a dot or two dots,
  and a path that ends in a slash, with the error of a directory.
\<close>

definition write_text :: "string \<Rightarrow> string \<Rightarrow> repo \<Rightarrow> py_error option \<times> repo" where
  "write_text path text r =
     (if path = [] then (Some FileNotFoundError, r)
      else if CHR 0x00 \<in> set path then (Some ValueError, r)
      else if hd path = CHR ''/'' then (Some Unmodelled, r)
      else
        (case rev (filter (\<lambda>c. c \<noteq> []) (components path)) of
           [] \<Rightarrow> (Some FileNotFoundError, r)
         | name # dirs \<Rightarrow>
             (case walk r [] (rev dirs) of
                Fails e \<Rightarrow> (Some e, r)
              | Outside \<Rightarrow> (Some Unmodelled, r)
              | Found dir \<Rightarrow>
                  (case node_at r dir of
                     None \<Rightarrow> (Some FileNotFoundError, r)
                   | Some Is_dir \<Rightarrow>
                       if name = ''.'' \<or> name = ''..'' \<or> last path = CHR ''/''
                       then (Some IsADirectoryError, r)
                       else
                         (case node_at r (dir @ [name]) of
                            Some Is_dir \<Rightarrow> (Some IsADirectoryError, r)
                          | _ \<Rightarrow>
                              (case store_at (dir @ [name]) text r of
                                 None \<Rightarrow> (Some Unmodelled, r)
                               | Some r' \<Rightarrow> (None, r')))
                   | Some e \<Rightarrow> (Some NotADirectoryError, r)))))"

text \<open>
  \<^verbatim>\<open>os.path.samefile(src, dst)\<close> as \<^verbatim>\<open>shutil.copyfile\<close> calls it: the source is looked up
  first, a lookup that fails makes the answer false, and only the error of a null
  character in a path is passed on.
\<close>

definition same_file :: "repo \<Rightarrow> string \<Rightarrow> string \<Rightarrow> py_error + bool" where
  "same_file r src dst =
     (case resolve r src of
        Outside \<Rightarrow> Inl Unmodelled
      | Fails e \<Rightarrow> if e = ValueError then Inl ValueError else Inr False
      | Found a \<Rightarrow>
          if node_at r a = None then Inr False
          else
            (case resolve r dst of
               Outside \<Rightarrow> Inl Unmodelled
             | Fails e \<Rightarrow> if e = ValueError then Inl ValueError else Inr False
             | Found b \<Rightarrow> Inr (a = b)))"

subsection \<open>checkout\<close>

text \<open>
  \<^verbatim>\<open>shutil.copyfile(obj_path, filename)\<close> for every entry of the file map, in its order.
  \<^verbatim>\<open>copyfile\<close> refuses to copy a file onto itself, opens the object for reading and then
  the target for writing; when the target cannot be opened because of a directory and
  does not exist, it raises \<^verbatim>\<open>FileNotFoundError\<close> instead (Python 3.11 and later). The
  result names the step that raised.
\<close>

datatype copy_step = Same_file_check | Open_source | Open_target

definition copyfile ::
  "string \<Rightarrow> string \<Rightarrow> repo \<Rightarrow> (copy_step \<times> py_error) option \<times> repo" where
  "copyfile sha filename r =
     (let obj_path = join objects_path sha in
      case same_file r obj_path filename of
        Inl e \<Rightarrow> (Some (Same_file_check, e), r)
      | Inr True \<Rightarrow> (Some (Same_file_check, SameFileError), r)
      | Inr False \<Rightarrow>
          (case read_text r obj_path of
             Inl e \<Rightarrow> (Some (Open_source, e), r)
           | Inr content \<Rightarrow>
               (case write_text filename content r of
                  (None, r') \<Rightarrow> (None, r')
                | (Some e, r') \<Rightarrow>
                    if e = IsADirectoryError \<and> path_exists r filename = Inr False
                    then (Some (Open_target, FileNotFoundError), r')
                    else (Some (Open_target, e), r'))))"

fun restore_files ::
  "(string \<times> string) list \<Rightarrow> repo \<Rightarrow> (copy_step \<times> py_error) option \<times> repo" where
  "restore_files [] r = (None, r)"
| "restore_files ((filename, sha) # rest) r =
     (case copyfile sha filename r of
        (Some e, r') \<Rightarrow> (Some e, r')
      | (None, r') \<Rightarrow> restore_files rest r')"

text \<open>
  Lines 169 to 187 of \<^verbatim>\<open>checkout\<close>: the target is resolved to a commit hash.
  \<open>Inr None\<close> is the early return after the report of an unknown target.
\<close>

definition checkout_resolve :: "string \<Rightarrow> repo \<Rightarrow> (py_error + string option) \<times> repo" where
  "checkout_resolve target r =
     (case path_exists r (join branches_path target) of
        Inl e \<Rightarrow> (Inl e, r)
      | Inr True \<Rightarrow>
          (case read_text r (join branches_path target) of
             Inl e \<Rightarrow> (Inl e, r)
           | Inr t \<Rightarrow>
               (case save_head (r\<lparr>head := Some target\<rparr>) of
                  (Some e, r1) \<Rightarrow> (Inl e, r1)
                | (None, r1) \<Rightarrow>
                    (Inr (Some (strip t)),
                     py_print (''Switched to branch '' @ [CHR 0x27] @ target @ [CHR 0x27]) r1)))
      | Inr False \<Rightarrow>
          (case path_exists r (join commits_path (target @ ''.json'')) of
             Inl e \<Rightarrow> (Inl e, r)
           | Inr True \<Rightarrow>
               (case save_head
                       ((py_print (''Checked out commit '' @ take 7 target @ '' (detached HEAD)'') r)
                          \<lparr>head := None\<rparr>) of
                  (Some e, r1) \<Rightarrow> (Inl e, r1)
                | (None, r1) \<Rightarrow> (Inr (Some target), r1))
           | Inr False \<Rightarrow>
               (Inr None,
                py_print (''error: unknown branch or commit '' @ [CHR 0x27] @ target @ [CHR 0x27]) r)))"

text \<open>\<^verbatim>\<open>read_json(commit_path)\<close> for the hash that was resolved (lines 193 and 194).\<close>

definition read_commit :: "repo \<Rightarrow> string \<Rightarrow> py_error + commit_record" where
  "read_commit r commit_hash =
     (case resolve r (join commits_path (commit_hash @ ''.json'')) of
        Fails e \<Rightarrow> Inl e
      | Outside \<Rightarrow> Inl Unmodelled
      | Found loc \<Rightarrow>
          (case place_of loc of
             Commit_file h \<Rightarrow>
               (case commits r h of None \<Rightarrow> Inl FileNotFoundError | Some c \<Rightarrow> Inr c)
           | other \<Rightarrow>
               (case node_at r loc of
                  None \<Rightarrow> Inl FileNotFoundError
                | Some Is_dir \<Rightarrow> Inl IsADirectoryError
                | Some e \<Rightarrow> Inl Unmodelled)))"

definition checkout :: "string \<Rightarrow> repo \<Rightarrow> py_error option \<times> repo" where
  "checkout target r =
     (case checkout_resolve target r of
        (Inl e, r1) \<Rightarrow> (Some e, r1)
      | (Inr None, r1) \<Rightarrow> (None, r1)
      | (Inr (Some commit_hash), r1) \<Rightarrow>
          if commit_hash = [] then (None, py_print ''error: commit not found'' r1)
          else
            (case read_commit r1 commit_hash of
               Inl e \<Rightarrow> (Some e, r1)
             | Inr c \<Rightarrow>
                 (case restore_files (files c) r1 of
                    (Some (step, e), r2) \<Rightarrow> (Some e, r2)
                  | (None, r2) \<Rightarrow>
                      (None, py_print (''Checked out files from commit '' @ take 7 commit_hash) r2))))"

text \<open>A single file name: what a path needs to be to name an entry of a directory.\<close>

definition plain_name :: "string \<Rightarrow> bool" where
  "plain_name n =
     (n \<noteq> [] \<and> n \<noteq> ''.'' \<and> n \<noteq> ''..'' \<and> CHR ''/'' \<notin> set n \<and> CHR 0x00 \<notin> set n)"

subsection \<open>branch\<close>

definition branch :: "string \<Rightarrow> repo \<Rightarrow> py_error option \<times> repo" where
  "branch name r =
     (case path_exists r (join branches_path name) of
        Inl e \<Rightarrow> (Some e, r)
      | Inr True \<Rightarrow>
          (None, py_print (''Branch '' @ [CHR 0x27] @ name @ [CHR 0x27] @ '' already exists.'') r)
      | Inr False \<Rightarrow>
          (case get_current_commit r of
             Inl e \<Rightarrow> (Some e, r)
           | Inr current_commit \<Rightarrow>
               if \<not> truthy current_commit then (None, py_print ''No commits to branch from.'' r)
               else
                 (case write_text (join branches_path name) (fmt current_commit) r of
                    (Some e, r1) \<Rightarrow> (Some e, r1)
                  | (None, r1) \<Rightarrow>
                      (None,
                       py_print (''Created branch '' @ [CHR 0x27] @ name @ [CHR 0x27] @ '' at ''
                                 @ take 7 (fmt current_commit)) r1))))"

subsection \<open>Invariants of the stores\<close>

text \<open>
  Every hash the index records names a stored object, and so does every hash in the file
  map of every stored commit.
\<close>

definition index_stored :: "repo \<Rightarrow> bool" where
  "index_stored r = (\<forall>(p, h) \<in> set (read_index r). objects r h \<noteq> None)"

definition commits_stored :: "repo \<Rightarrow> bool" where
  "commits_stored r =
     (\<forall>h c. commits r h = Some c \<longrightarrow> (\<forall>(p, s) \<in> set (files c). objects r s \<noteq> None))"

definition objects_invariant :: "repo \<Rightarrow> bool" where
  "objects_invariant r = (index_stored r \<and> commits_stored r)"

text \<open>The object store is a directory: what it holds is named by single file names.\<close>

definition objects_named :: "repo \<Rightarrow> bool" where
  "objects_named r = (\<forall>s. objects r s \<noteq> None \<longrightarrow> plain_name s)"

text \<open>Every commit file is named by the hash of the record it holds.\<close>

definition content_addressed :: "(string \<Rightarrow> string) \<Rightarrow> (json \<Rightarrow> string) \<Rightarrow> repo \<Rightarrow> bool" where
  "content_addressed sha1 dumps r =
     (\<forall>h c. commits r h = Some c \<longrightarrow> commit_hash_of sha1 dumps c = h)"

subsection \<open>The history of a commit, as the specification describes it\<close>

text \<open>
  The parent links of a commit store as a relation, child above parent; the specification
  takes the commits to form an acyclic graph.
\<close>

definition parent_rel :: "(string \<rightharpoonup> commit_record) \<Rightarrow> (string \<times> string) set" where
  "parent_rel cs = {(p, h). \<exists>c. cs h = Some c \<and> parent c = Some p}"



subsection \<open>Example repositories\<close>


text \<open>
  The same repository after \<^verbatim>\<open>add f\<close> and \<^verbatim>\<open>commit first\<close>, with \<^verbatim>\<open>f\<close> edited to \<^verbatim>\<open>world\<close>
  afterwards. In the examples the digest of a byte string is the string itself and every
  commit is rendered as the text \<^verbatim>\<open>c0ffee1234\<close>.
\<close>

definition repo_first_commit :: repo where
  "repo_first_commit =
     \<lparr>head = Some ''master'', head_file = Some ''master'', index_file = Some [],
      commits = [''c0ffee1234'' \<mapsto>
                   \<lparr>message = ''first'', timestamp = ''2024-01-01T00:00:00Z'',
                    files = [(''f'', ''hello'')], parent = None\<rparr>],
      objects = [''hello'' \<mapsto> ''hello''],
      branches = [[] \<mapsto> Dir, ''master'' \<mapsto> File ''c0ffee1234''],
      worktree = [(''.myvcs'', Dir), (''f'', File ''world'')], out = []\<rparr>"



text \<open>A fresh repository in a directory with two files of the same content.\<close>

definition repo_copy_file :: repo where
  "repo_copy_file =
     \<lparr>head = Some ''master'', head_file = Some ''master'', index_file = None,
      commits = Map.empty, objects = Map.empty, branches = [[] \<mapsto> Dir],
      worktree = [(''.myvcs'', Dir), (''f'', File ''hello''), (''g'', File ''hello'')], out = []\<rparr>"

text \<open>The repository with one commit, after \<^verbatim>\<open>add f\<close> of the edited file.\<close>

definition repo_staged :: repo where
  "repo_staged =
     \<lparr>head = Some ''master'', head_file = Some ''master'',
      index_file = Some [(''f'', ''world'')],
      commits = [''c0ffee1234'' \<mapsto>
                   \<lparr>message = ''first'', timestamp = ''2024-01-01T00:00:00Z'',
                    files = [(''f'', ''hello'')], parent = None\<rparr>],
      objects = [''hello'' \<mapsto> ''hello'', ''world'' \<mapsto> ''world''],
      branches = [[] \<mapsto> Dir, ''master'' \<mapsto> File ''c0ffee1234''],
      worktree = [(''.myvcs'', Dir), (''f'', File ''world'')], out = []\<rparr>"


section \<open>Properties\<close>

subsection \<open>Paths of single names\<close>

lemma components_no_slash: "CHR ''/'' \<notin> set n \<Longrightarrow> components n = [n]"
  by (induction n) auto


lemma branches_path_text: "branches_path = ''.myvcs/branches''"
  by (simp add: branches_path_def join_def)

lemma commits_path_text: "commits_path = ''.myvcs/commits''"
  by (simp add: commits_path_def join_def)

lemma join_plain: "plain_name n \<Longrightarrow> a \<noteq> [] \<Longrightarrow> last a \<noteq> CHR ''/'' \<Longrightarrow> join a n = a @ ''/'' @ n"
  by (cases n) (auto simp add: join_def plain_name_def)

lemma json_stem_append: "json_stem (n @ ''.json'') = Some n"
  by (simp add: json_stem_def)

lemma node_at_fixed:
  "node_at r [] = Some Is_dir"
  "node_at r [''.myvcs''] = Some Is_dir"
  "node_at r [''.myvcs'', ''branches''] = Some Is_dir"
  "node_at r [''.myvcs'', ''commits''] = Some Is_dir"
  by (simp_all add: node_at_def place_of_def)

lemma place_of_branch: "place_of [''.myvcs'', ''branches'', n] = Branch_entry n"
  by (simp add: place_of_def)

lemma place_of_commit: "place_of [''.myvcs'', ''commits'', n @ ''.json''] = Commit_file n"
  by (simp add: place_of_def json_stem_append)

lemma node_at_branch:
  "node_at r [''.myvcs'', ''branches'', n] =
     (case branches r n of
        None \<Rightarrow> None | Some Dir \<Rightarrow> Some Is_dir | Some (File t) \<Rightarrow> Some (Is_text t))"
  by (simp add: node_at_def place_of_branch)

lemma node_at_commit:
  "node_at r [''.myvcs'', ''commits'', n @ ''.json''] =
     (case commits r n of None \<Rightarrow> None | Some c \<Rightarrow> Some Is_json)"
  by (simp add: node_at_def place_of_commit)

lemma walk_to_branches:
  "walk r [] [''.myvcs'', ''branches''] = Found [''.myvcs'', ''branches'']"
  by (simp add: node_at_fixed)

lemma resolve_branch_plain:
  assumes "plain_name n"
  shows "resolve r (join branches_path n) = Found [''.myvcs'', ''branches'', n]"
proof -
  have j: "join branches_path n = ''.myvcs/branches'' @ CHR ''/'' # n"
    using join_plain [OF assms, of "''.myvcs/branches''"] by (simp add: branches_path_text)
  have c: "components (''.myvcs/branches'' @ CHR ''/'' # n) = [''.myvcs'', ''branches'', n]"
    using assms by (simp add: components_no_slash plain_name_def)
  have z: "CHR 0x00 \<notin> set (''.myvcs/branches'' @ CHR ''/'' # n)"
    using assms by (simp add: plain_name_def)
  show ?thesis
    unfolding j resolve_def c
    using assms z by (simp add: node_at_fixed plain_name_def)
qed

lemma resolve_commit_plain:
  assumes "plain_name n"
  shows "resolve r (join commits_path (n @ ''.json'')) = Found [''.myvcs'', ''commits'', n @ ''.json'']"
proof -
  have p: "plain_name (n @ ''.json'')"
    using assms by (cases n) (auto simp add: plain_name_def)
  have j: "join commits_path (n @ ''.json'') = ''.myvcs/commits'' @ CHR ''/'' # n @ ''.json''"
    using join_plain [OF p, of "''.myvcs/commits''"] by (simp add: commits_path_text)
  have c: "components (''.myvcs/commits'' @ CHR ''/'' # n @ ''.json'') =
           [''.myvcs'', ''commits'', n @ ''.json'']"
    using p components_no_slash [of "n @ ''.json''"] by (simp add: plain_name_def)
  have z: "CHR 0x00 \<notin> set (''.myvcs/commits'' @ CHR ''/'' # n @ ''.json'')"
    using assms by (simp add: plain_name_def)
  have d: "n @ ''.json'' \<noteq> []" "n @ ''.json'' \<noteq> ''.''" "n @ ''.json'' \<noteq> ''..''"
    using p by (simp_all add: plain_name_def)
  show ?thesis
    unfolding j resolve_def c
    using z d by (simp add: node_at_fixed)
qed

lemma path_exists_branch_plain:
  "plain_name n \<Longrightarrow> path_exists r (join branches_path n) = Inr (branches r n \<noteq> None)"
  by (simp add: path_exists_def resolve_branch_plain node_at_branch split: option.splits node.splits)

lemma path_exists_commit_plain:
  "plain_name n \<Longrightarrow> path_exists r (join commits_path (n @ ''.json'')) = Inr (commits r n \<noteq> None)"
  by (simp add: path_exists_def resolve_commit_plain node_at_commit split: option.splits)

lemma read_text_branch_plain:
  "plain_name n \<Longrightarrow>
   read_text r (join branches_path n) =
     (case branches r n of
        None \<Rightarrow> Inl FileNotFoundError
      | Some Dir \<Rightarrow> Inl IsADirectoryError
      | Some (File t) \<Rightarrow> Inr t)"
  by (simp add: read_text_def resolve_branch_plain node_at_branch split: option.splits node.splits)


lemma objects_path_text: "objects_path = ''.myvcs/objects''"
  by (simp add: objects_path_def join_def)

lemma place_of_object: "place_of [''.myvcs'', ''objects'', n] = Object_file n"
  by (simp add: place_of_def)

lemma node_at_object: "node_at r [''.myvcs'', ''objects'', n] = map_option Is_text (objects r n)"
  by (simp add: node_at_def place_of_object)

lemma resolve_object_plain:
  assumes "plain_name n"
  shows "resolve r (join objects_path n) = Found [''.myvcs'', ''objects'', n]"
proof -
  have j: "join objects_path n = ''.myvcs/objects'' @ CHR ''/'' # n"
    using join_plain [OF assms, of "''.myvcs/objects''"] by (simp add: objects_path_text)
  have c: "components (''.myvcs/objects'' @ CHR ''/'' # n) = [''.myvcs'', ''objects'', n]"
    using assms by (simp add: components_no_slash plain_name_def)
  have z: "CHR 0x00 \<notin> set (''.myvcs/objects'' @ CHR ''/'' # n)"
    using assms by (simp add: plain_name_def)
  have o: "node_at r [''.myvcs'', ''objects''] = Some Is_dir"
    by (simp add: node_at_def place_of_def)
  show ?thesis
    unfolding j resolve_def c
    using assms z by (simp add: node_at_fixed o plain_name_def)
qed

lemma read_text_object_plain:
  "plain_name n \<Longrightarrow>
   read_text r (join objects_path n) =
     (case objects r n of None \<Rightarrow> Inl FileNotFoundError | Some content \<Rightarrow> Inr content)"
  by (simp add: read_text_def resolve_object_plain node_at_object split: option.splits)


lemma read_commit_stored: "read_commit r h = Inr c \<Longrightarrow> \<exists>k. commits r k = Some c"
  by (auto simp add: read_commit_def split: lookup.splits place.splits option.splits entry.splits)

subsection \<open>checkout of a commit hash\<close>

text \<open>
  C1: for a target whose path under the branches does not exist and whose commit file
  exists, \<^verbatim>\<open>checkout\<close> should detach HEAD at that commit and restore every file of the
  commit's file map from the object store. The code prints the report of the detached
  checkout, sets \<^verbatim>\<open>self.head\<close> to \<^verbatim>\<open>None\<close> and calls \<^verbatim>\<open>save_head\<close>, which empties the HEAD file
  and then raises \<^verbatim>\<open>TypeError\<close> on \<^verbatim>\<open>f.write(None)\<close>: the restoring loop is never reached and
  the working tree stays as it was.
\<close>

theorem checkout_commit_hash_raises:
  "path_exists r (join branches_path target) = Inr False \<Longrightarrow>
   path_exists r (join commits_path (target @ ''.json'')) = Inr True \<Longrightarrow>
   checkout target r =
     (Some TypeError,
      r\<lparr>head := None, head_file := Some [],
        out := out r @ [''Checked out commit '' @ take 7 target @ '' (detached HEAD)'']\<rparr>)"
  by (simp add: checkout_def checkout_resolve_def save_head_def py_print_def)

theorem checkout_commit_hash_raises_witness:
  "branches repo_first_commit ''c0ffee1234'' = None \<and>
   path_exists repo_first_commit (join branches_path ''c0ffee1234'') = Inr False \<and>
   commits repo_first_commit ''c0ffee1234'' =
     Some \<lparr>message = ''first'', timestamp = ''2024-01-01T00:00:00Z'',
           files = [(''f'', ''hello'')], parent = None\<rparr> \<and>
   path_exists repo_first_commit (join commits_path (''c0ffee1234'' @ ''.json'')) = Inr True \<and>
   fst (checkout ''c0ffee1234'' repo_first_commit) = Some TypeError \<and>
   map_of (worktree (snd (checkout ''c0ffee1234'' repo_first_commit))) ''f'' = Some (File ''world'') \<and>
   head_file (snd (checkout ''c0ffee1234'' repo_first_commit)) = Some []"
proof -
  have p: "plain_name ''c0ffee1234''"
    by (simp add: plain_name_def)
  have b: "branches repo_first_commit ''c0ffee1234'' = None"
    by (simp add: repo_first_commit_def)
  have c: "commits repo_first_commit ''c0ffee1234'' =
             Some \<lparr>message = ''first'', timestamp = ''2024-01-01T00:00:00Z'',
                   files = [(''f'', ''hello'')], parent = None\<rparr>"
    by (simp add: repo_first_commit_def)
  have pb: "path_exists repo_first_commit (join branches_path ''c0ffee1234'') = Inr False"
    using b by (simp add: path_exists_branch_plain [OF p])
  have pc: "path_exists repo_first_commit (join commits_path (''c0ffee1234'' @ ''.json'')) = Inr True"
    using c by (simp only: path_exists_commit_plain [OF p]) simp
  have w: "map_of (worktree repo_first_commit) ''f'' = Some (File ''world'')"
    by (simp add: repo_first_commit_def)
  show ?thesis
    using b c pb pc w checkout_commit_hash_raises [OF pb pc] by simp
qed

subsection \<open>commit on an empty index\<close>

text \<open>
  C2: when the staging index is empty (no index file, or an index file that holds the
  empty mapping), \<^verbatim>\<open>commit\<close> raises nothing and changes nothing but the output, to which it
  adds the report that there is nothing to commit: no commit record is written, no branch
  pointer moves, the index file is as before.
\<close>

theorem commit_empty_index_no_change:
  "read_index r = [] \<Longrightarrow>
   commit sha1 dumps now msg r =
     (None, r\<lparr>out := out r @ [''Nothing to commit, staging area is empty.'']\<rparr>)"
  by (simp add: commit_def py_print_def)

theorem commit_empty_index_no_change_witness:
  "read_index repo_first_commit = [] \<and>
   commit id (\<lambda>j. ''c0ffee1234'') ''2024-01-02T00:00:00'' ''second'' repo_first_commit =
     (None, repo_first_commit\<lparr>out := [''Nothing to commit, staging area is empty.'']\<rparr>)"
proof -
  have i: "read_index repo_first_commit = []"
    by (simp add: repo_first_commit_def read_index_def)
  have o: "out repo_first_commit = []"
    by (simp add: repo_first_commit_def)
  show ?thesis
    using i o commit_empty_index_no_change [OF i, of id "\<lambda>j. ''c0ffee1234''" "''2024-01-02T00:00:00''" "''second''"]
    by simp
qed

subsection \<open>checkout of an unknown target\<close>




subsection \<open>add stores content once\<close>

lemma add_single:
  "map_of (worktree r) f = Some (File b) \<Longrightarrow>
   add sha1 [f] r =
     (None,
      r\<lparr>objects := (if objects r (sha1 b) = None then (objects r)(sha1 b \<mapsto> b) else objects r),
        out := out r @ [''Added '' @ [CHR 0x27] @ f @ [CHR 0x27]],
        index_file := Some (AList.update f (sha1 b) (read_index r))\<rparr>)"
  by (simp add: add_def py_print_def write_index_def Let_def)

text \<open>
  C4: two files with the same bytes, added one after the other, are recorded in the index
  under the same hash; neither call raises; the first call stores the bytes under that
  hash unless an object of that name is already there, and changes no other object; the
  second call leaves the object store exactly as the first left it.
\<close>

theorem add_same_content_one_object:
  assumes f1: "map_of (worktree r) f1 = Some (File b)"
    and f2: "map_of (worktree r) f2 = Some (File b)"
    and a1: "add sha1 [f1] r = (e1, r1)"
    and a2: "add sha1 [f2] r1 = (e2, r2)"
  shows "e1 = None \<and> e2 = None \<and>
         map_of (read_index r1) f1 = Some (sha1 b) \<and>
         map_of (read_index r2) f1 = Some (sha1 b) \<and>
         map_of (read_index r2) f2 = Some (sha1 b) \<and>
         objects r1 = (if objects r (sha1 b) = None then (objects r)(sha1 b \<mapsto> b) else objects r) \<and>
         objects r2 = objects r1"
proof -
  from a1 add_single [OF f1, of sha1]
  have r1: "e1 = None"
    "r1 = r\<lparr>objects := (if objects r (sha1 b) = None then (objects r)(sha1 b \<mapsto> b) else objects r),
        out := out r @ [''Added '' @ [CHR 0x27] @ f1 @ [CHR 0x27]],
        index_file := Some (AList.update f1 (sha1 b) (read_index r))\<rparr>"
    by simp_all
  have w1: "map_of (worktree r1) f2 = Some (File b)"
    using f2 by (simp add: r1)
  have o1: "objects r1 (sha1 b) \<noteq> None"
    by (simp add: r1)
  from a2 add_single [OF w1, of sha1] o1
  have r2: "e2 = None"
    "r2 = r1\<lparr>objects := objects r1,
        out := out r1 @ [''Added '' @ [CHR 0x27] @ f2 @ [CHR 0x27]],
        index_file := Some (AList.update f2 (sha1 b) (read_index r1))\<rparr>"
    by auto
  have i1: "map_of (read_index r1) f1 = Some (sha1 b)"
    by (simp add: r1 read_index_def update_conv')
  have i2: "map_of (read_index r2) f1 = Some (sha1 b)" "map_of (read_index r2) f2 = Some (sha1 b)"
    using i1 by (simp_all add: r2 read_index_def update_conv')
  show ?thesis
    using r1(1) r2(1) i1 i2 by (simp add: r1(2) r2(2))
qed

theorem add_same_content_one_object_witness:
  "map_of (worktree repo_copy_file) ''f'' = Some (File ''hello'') \<and>
   map_of (worktree repo_copy_file) ''g'' = Some (File ''hello'') \<and>
   fst (add id [''f''] repo_copy_file) = None \<and>
   fst (add id [''g''] (snd (add id [''f''] repo_copy_file))) = None \<and>
   read_index (snd (add id [''g''] (snd (add id [''f''] repo_copy_file)))) =
     [(''f'', ''hello''), (''g'', ''hello'')] \<and>
   objects (snd (add id [''f''] repo_copy_file)) = [''hello'' \<mapsto> ''hello''] \<and>
   objects (snd (add id [''g''] (snd (add id [''f''] repo_copy_file)))) = [''hello'' \<mapsto> ''hello'']"
proof -
  have f: "map_of (worktree repo_copy_file) ''f'' = Some (File ''hello'')"
    by (simp add: repo_copy_file_def)
  have g: "map_of (worktree repo_copy_file) ''g'' = Some (File ''hello'')"
    by (simp add: repo_copy_file_def)
  obtain e1 r1 where a1: "add id [''f''] repo_copy_file = (e1, r1)"
    by (cases "add id [''f''] repo_copy_file")
  obtain e2 r2 where a2: "add id [''g''] r1 = (e2, r2)"
    by (cases "add id [''g''] r1")
  have o: "objects repo_copy_file = Map.empty"
    by (simp add: repo_copy_file_def)
  have i1: "read_index r1 = [(''f'', ''hello'')]"
    using a1 add_single [OF f, of id]
    by (auto simp add: read_index_def repo_copy_file_def)
  have w1: "map_of (worktree r1) ''g'' = Some (File ''hello'')"
    using a1 add_single [OF f, of id] g by auto
  have i2: "read_index r2 = [(''f'', ''hello''), (''g'', ''hello'')]"
    using a2 add_single [OF w1, of id] i1
    by (auto simp add: read_index_def)
  show ?thesis
    using f g i2 o add_same_content_one_object [OF f g a1 a2] by (simp add: a1 a2)
qed

subsection \<open>commit on a staged index\<close>



subsection \<open>branch\<close>




subsection \<open>Every recorded hash has its object\<close>

lemma set_update_subset:
  "(p, h) \<in> set (AList.update k v al) \<Longrightarrow> (p, h) = (k, v) \<or> (p, h) \<in> set al"
  by (induction al) (auto split: if_splits)

lemma add_loop_grows:
  "add_loop sha1 fs index r = (res, r') \<Longrightarrow>
   commits r' = commits r \<and> index_file r' = index_file r \<and>
   (\<forall>h. objects r h \<noteq> None \<longrightarrow> objects r' h \<noteq> None)"
proof (induction fs arbitrary: index r)
  case Nil
  then show ?case by simp
next
  case (Cons f fs)
  show ?case
  proof (cases "map_of (worktree r) f")
    case None
    with Cons.prems
      Cons.IH [of index "py_print (''Warning: File '' @ [CHR 0x27] @ f @ [CHR 0x27] @ '' does not exist.'') r"]
    show ?thesis by (simp add: py_print_def)
  next
    case (Some n)
    show ?thesis
    proof (cases n)
      case Dir
      with Some Cons.prems show ?thesis by simp
    next
      case (File content)
      let ?r1 = "if objects r (sha1 content) = None
                 then r\<lparr>objects := (objects r)(sha1 content \<mapsto> content)\<rparr> else r"
      from File Some Cons.prems
      have "add_loop sha1 fs (AList.update f (sha1 content) index)
              (py_print (''Added '' @ [CHR 0x27] @ f @ [CHR 0x27]) ?r1) = (res, r')"
        by (simp add: Let_def)
      from Cons.IH [OF this] show ?thesis
        by (auto simp add: py_print_def split: if_splits)
    qed
  qed
qed

lemma add_loop_index:
  "add_loop sha1 fs index r = (Inr index', r') \<Longrightarrow>
   \<forall>(p, h) \<in> set index. objects r h \<noteq> None \<Longrightarrow>
   \<forall>(p, h) \<in> set index'. objects r' h \<noteq> None"
proof (induction fs arbitrary: index r)
  case Nil
  then show ?case by simp
next
  case (Cons f fs)
  show ?case
  proof (cases "map_of (worktree r) f")
    case None
    with Cons.prems
      Cons.IH [of index "py_print (''Warning: File '' @ [CHR 0x27] @ f @ [CHR 0x27] @ '' does not exist.'') r"]
    show ?thesis by (simp add: py_print_def)
  next
    case (Some n)
    show ?thesis
    proof (cases n)
      case Dir
      with Some Cons.prems show ?thesis by simp
    next
      case (File content)
      let ?r1 = "if objects r (sha1 content) = None
                 then r\<lparr>objects := (objects r)(sha1 content \<mapsto> content)\<rparr> else r"
      let ?r2 = "py_print (''Added '' @ [CHR 0x27] @ f @ [CHR 0x27]) ?r1"
      from File Some Cons.prems
      have run: "add_loop sha1 fs (AList.update f (sha1 content) index) ?r2 = (Inr index', r')"
        by (simp add: Let_def)
      have "\<forall>(p, h) \<in> set (AList.update f (sha1 content) index). objects ?r2 h \<noteq> None"
        using Cons.prems(2) by (auto simp add: py_print_def dest!: set_update_subset)
      from Cons.IH [OF run this] show ?thesis .
    qed
  qed
qed

lemma objects_invariant_add:
  assumes "objects_invariant r"
  shows "objects_invariant (snd (add sha1 fs r))"
proof (cases "add_loop sha1 fs (read_index r) r")
  case (Pair res r')
  note g = add_loop_grows [OF Pair]
  have cs: "commits_stored r'"
    using assms g by (fastforce simp add: objects_invariant_def commits_stored_def)
  show ?thesis
  proof (cases res)
    case (Inl e)
    have "index_stored r'"
      using assms g by (fastforce simp add: objects_invariant_def index_stored_def read_index_def)
    with cs Pair Inl show ?thesis
      by (simp add: add_def objects_invariant_def)
  next
    case (Inr index')
    have "\<forall>(p, h) \<in> set (read_index r). objects r h \<noteq> None"
      using assms by (simp add: objects_invariant_def index_stored_def)
    from add_loop_index [OF Pair [unfolded Inr] this]
    have "index_stored (write_index index' r')"
      by (simp add: index_stored_def write_index_def read_index_def)
    moreover have "commits_stored (write_index index' r')"
      using cs by (simp add: commits_stored_def write_index_def)
    ultimately show ?thesis
      using Pair Inr by (simp add: add_def objects_invariant_def)
  qed
qed

lemma objects_invariant_commit:
  assumes "objects_invariant r"
  shows "objects_invariant (snd (commit sha1 dumps now msg r))"
  using assms
  by (auto simp add: commit_def objects_invariant_def index_stored_def commits_stored_def
      read_index_def write_index_def update_branch_def py_print_def stored_def Let_def
      split: option.splits sum.splits node.splits if_splits prod.splits)

lemma store_at_keeps:
  "store_at loc text r = Some r' \<Longrightarrow>
   commits r' = commits r \<and> index_file r' = index_file r \<and>
   (\<forall>s. objects r s \<noteq> None \<longrightarrow> objects r' s \<noteq> None)"
  by (auto simp add: store_at_def split: place.splits)

lemma write_text_keeps:
  "write_text path text r = (e, r') \<Longrightarrow>
   commits r' = commits r \<and> index_file r' = index_file r \<and>
   (\<forall>s. objects r s \<noteq> None \<longrightarrow> objects r' s \<noteq> None)"
  unfolding write_text_def
  by (auto split: if_splits list.splits lookup.splits option.splits entry.splits
      dest!: store_at_keeps)

lemma copyfile_keeps:
  assumes "copyfile sha filename r = (e, r')"
  shows "commits r' = commits r \<and> index_file r' = index_file r \<and>
         (\<forall>s. objects r s \<noteq> None \<longrightarrow> objects r' s \<noteq> None)"
proof (cases "read_text r (join objects_path sha)")
  case (Inl x)
  with assms show ?thesis
    by (auto simp add: copyfile_def Let_def split: sum.splits bool.splits)
next
  case (Inr content)
  obtain e1 r1 where w: "write_text filename content r = (e1, r1)"
    by (cases "write_text filename content r")
  from assms Inr w have "r' = r \<or> r' = r1"
    by (auto simp add: copyfile_def Let_def split: sum.splits bool.splits option.splits if_splits)
  with write_text_keeps [OF w] show ?thesis by auto
qed

lemma copyfile_source:
  "plain_name sha \<Longrightarrow> objects r sha \<noteq> None \<Longrightarrow>
   fst (copyfile sha filename r) \<noteq> Some (Open_source, e)"
  by (auto simp add: copyfile_def Let_def read_text_object_plain
      split: sum.splits bool.splits option.splits prod.splits)

lemma restore_files_keeps:
  "restore_files fs r = (e, r') \<Longrightarrow>
   commits r' = commits r \<and> index_file r' = index_file r \<and>
   (\<forall>s. objects r s \<noteq> None \<longrightarrow> objects r' s \<noteq> None)"
proof (induction fs arbitrary: r)
  case Nil
  then show ?case by simp
next
  case (Cons entry fs)
  obtain filename sha where en: "entry = (filename, sha)" by (cases entry)
  obtain e1 r1 where c: "copyfile sha filename r = (e1, r1)"
    by (cases "copyfile sha filename r")
  note k = copyfile_keeps [OF c]
  show ?case
  proof (cases e1)
    case None
    with Cons.prems en c have "restore_files fs r1 = (e, r')" by simp
    from Cons.IH [OF this] k show ?thesis by auto
  next
    case (Some x)
    with Cons.prems en c have "r' = r1" by simp
    with k show ?thesis by simp
  qed
qed

lemma restore_files_source_found:
  "\<forall>(p, s) \<in> set fs. plain_name s \<and> objects r s \<noteq> None \<Longrightarrow>
   fst (restore_files fs r) \<noteq> Some (Open_source, e)"
proof (induction fs arbitrary: r)
  case Nil
  then show ?case by simp
next
  case (Cons entry fs)
  obtain filename sha where en: "entry = (filename, sha)" by (cases entry)
  obtain e1 r1 where c: "copyfile sha filename r = (e1, r1)"
    by (cases "copyfile sha filename r")
  have o: "plain_name sha" "objects r sha \<noteq> None"
    using Cons.prems en by simp_all
  show ?case
  proof (cases e1)
    case None
    have "\<forall>(p, s) \<in> set fs. plain_name s \<and> objects r1 s \<noteq> None"
      using Cons.prems copyfile_keeps [OF c] by auto
    from Cons.IH [OF this] None en c show ?thesis by simp
  next
    case (Some x)
    with copyfile_source [OF o, of filename e] c en show ?thesis by simp
  qed
qed

lemma objects_invariant_kept:
  assumes "objects_invariant r"
    and "commits r' = commits r \<and> index_file r' = index_file r \<and>
         (\<forall>s. objects r s \<noteq> None \<longrightarrow> objects r' s \<noteq> None)"
  shows "objects_invariant r'"
  using assms
  by (fastforce simp add: objects_invariant_def index_stored_def commits_stored_def read_index_def)

lemma checkout_resolve_keeps:
  "checkout_resolve target r = (x, r1) \<Longrightarrow>
   commits r1 = commits r \<and> index_file r1 = index_file r \<and> objects r1 = objects r"
  by (auto simp add: checkout_resolve_def save_head_def py_print_def
      split: sum.splits bool.splits option.splits prod.splits)

lemma objects_invariant_fresh:
  "index_file r = None \<Longrightarrow> commits r = Map.empty \<Longrightarrow> objects_invariant r"
  by (simp add: objects_invariant_def index_stored_def commits_stored_def read_index_def)

lemma add_loop_named:
  "add_loop sha1 fs index r = (res, r') \<Longrightarrow> \<forall>b. plain_name (sha1 b) \<Longrightarrow>
   objects_named r \<Longrightarrow> objects_named r'"
proof (induction fs arbitrary: index r)
  case Nil
  then show ?case by simp
next
  case (Cons f fs)
  show ?case
  proof (cases "map_of (worktree r) f")
    case None
    have "objects_named (py_print (''Warning: File '' @ [CHR 0x27] @ f @ [CHR 0x27] @ '' does not exist.'') r)"
      using Cons.prems(3) by (simp add: objects_named_def py_print_def)
    with None Cons.prems Cons.IH show ?thesis by simp
  next
    case (Some n)
    show ?thesis
    proof (cases n)
      case Dir
      with Some Cons.prems show ?thesis by simp
    next
      case (File content)
      let ?r1 = "if objects r (sha1 content) = None
                 then r\<lparr>objects := (objects r)(sha1 content \<mapsto> content)\<rparr> else r"
      let ?r2 = "py_print (''Added '' @ [CHR 0x27] @ f @ [CHR 0x27]) ?r1"
      from File Some Cons.prems
      have run: "add_loop sha1 fs (AList.update f (sha1 content) index) ?r2 = (res, r')"
        by (simp add: Let_def)
      have "objects_named ?r2"
        using Cons.prems(2,3) by (auto simp add: objects_named_def py_print_def)
      from Cons.IH [OF run Cons.prems(2) this] show ?thesis .
    qed
  qed
qed

text \<open>
  A digest that is a file name, as the forty hexadecimal digits of SHA-1 are, keeps the
  object store a directory of files under \<^verbatim>\<open>add\<close>.
\<close>

lemma objects_named_add:
  assumes "\<forall>b. plain_name (sha1 b)" and "objects_named r"
  shows "objects_named (snd (add sha1 fs r))"
proof (cases "add_loop sha1 fs (read_index r) r")
  case (Pair res r')
  from add_loop_named [OF Pair assms] have "objects_named r'" .
  with Pair show ?thesis
    by (cases res) (simp_all add: add_def objects_named_def write_index_def)
qed

text \<open>
  C10: the invariant that every hash in the index and every hash in the file map of every
  stored commit names a stored object holds in a fresh repository and is kept by \<^verbatim>\<open>add\<close>
  and by \<^verbatim>\<open>commit\<close>, whatever their arguments and also when they raise. Under it, in an
  object store whose entries are named by file names, the copying of a stored commit's
  file map never fails at the opening of an object, in the state at hand and in the state
  in which \<^verbatim>\<open>checkout\<close> starts to copy: when the copying raises, the step that raised is the
  check for a copy onto itself or the opening of the target.
\<close>

theorem recorded_hashes_have_objects:
  assumes "objects_invariant r"
  shows "objects_invariant (snd (add sha1 fs r)) \<and>
         objects_invariant (snd (commit sha1 dumps now msg r)) \<and>
         (objects_named r \<longrightarrow>
            (\<forall>h c e. commits r h = Some c \<longrightarrow>
               fst (restore_files (files c) r) \<noteq> Some (Open_source, e)) \<and>
            (\<forall>commit_hash r1 c e.
               checkout_resolve target r = (Inr (Some commit_hash), r1) \<and>
               read_commit r1 commit_hash = Inr c \<longrightarrow>
                 fst (restore_files (files c) r1) \<noteq> Some (Open_source, e)))"
proof -
  have found: "fst (restore_files (files c) q) \<noteq> Some (Open_source, e)"
    if "objects_invariant q" "objects_named q" "commits q h = Some c" for q h c e
  proof -
    have "\<forall>(p, s) \<in> set (files c). plain_name s \<and> objects q s \<noteq> None"
      using that by (fastforce simp add: objects_invariant_def commits_stored_def objects_named_def)
    then show ?thesis by (rule restore_files_source_found)
  qed
  have "fst (restore_files (files c) r1) \<noteq> Some (Open_source, e)"
    if n: "objects_named r"
      and cr: "checkout_resolve target r = (Inr (Some commit_hash), r1)"
      and c: "read_commit r1 commit_hash = Inr c" for commit_hash r1 c e
  proof -
    note k = checkout_resolve_keeps [OF cr]
    have i: "objects_invariant r1"
      using k by (intro objects_invariant_kept [OF assms]) simp
    have n1: "objects_named r1"
      using n k by (simp add: objects_named_def)
    from read_commit_stored [OF c] obtain h where "commits r1 h = Some c" ..
    from found [OF i n1 this] show ?thesis .
  qed
  with found [OF assms] show ?thesis
    using objects_invariant_add [OF assms] objects_invariant_commit [OF assms]
    by blast
qed

theorem recorded_hashes_have_objects_witness:
  "objects_invariant repo_staged \<and> objects_named repo_staged \<and>
   objects_invariant (snd (add id [''f''] repo_staged)) \<and>
   objects_invariant
     (snd (commit id (\<lambda>j. ''deadbeef99'') ''2024-01-02T00:00:00'' ''second'' repo_staged)) \<and>
   commits repo_staged ''c0ffee1234'' =
     Some \<lparr>message = ''first'', timestamp = ''2024-01-01T00:00:00Z'',
           files = [(''f'', ''hello'')], parent = None\<rparr> \<and>
   fst (restore_files [(''f'', ''hello'')] repo_staged) \<noteq> Some (Open_source, FileNotFoundError)"
proof -
  have i: "index_stored repo_staged"
    by (simp add: index_stored_def repo_staged_def read_index_def)
  have c: "commits_stored repo_staged"
    by (auto simp add: commits_stored_def repo_staged_def split: if_splits)
  have inv: "objects_invariant repo_staged"
    using i c by (simp add: objects_invariant_def)
  have n: "objects_named repo_staged"
    by (auto simp add: objects_named_def repo_staged_def plain_name_def split: if_splits)
  have k: "commits repo_staged ''c0ffee1234'' =
             Some \<lparr>message = ''first'', timestamp = ''2024-01-01T00:00:00Z'',
                   files = [(''f'', ''hello'')], parent = None\<rparr>"
    by (simp add: repo_staged_def)
  note t = recorded_hashes_have_objects [OF inv, of id "[''f'']" "\<lambda>j. ''deadbeef99''"
      "''2024-01-02T00:00:00''" "''second''" "''master''"]
  from t n have r: "fst (restore_files [(''f'', ''hello'')] repo_staged) \<noteq> Some (Open_source, FileNotFoundError)"
    using k by fastforce
  with t inv n k show ?thesis by blast
qed

subsection \<open>The hash of a commit is canonical\<close>

lemma insort_key_map_value:
  "insort_key fst (k, g v) (map (\<lambda>(k, v). (k, g v)) xs) =
   map (\<lambda>(k, v). (k, g v)) (insort_key fst (k, v) xs)"
  by (induction xs) auto

lemma sort_key_map_value:
  "sort_key fst (map (\<lambda>(k, v). (k, g v)) xs) = map (\<lambda>(k, v). (k, g v)) (sort_key fst xs)"
  by (induction xs) (auto simp add: insort_key_map_value)

lemma sort_key_twice: "sort_key f (sort_key f xs) = sort_key f xs"
  by (simp add: sort_key_id_if_sorted)

lemma sort_keys_files:
  "sort_keys (JObject (map (\<lambda>(k, v). (k, JString v)) fs)) =
   JObject (map (\<lambda>(k, v). (k, JString v)) (sort_key fst fs))"
proof -
  have "map (\<lambda>(k, v). (k, sort_keys v)) (map (\<lambda>(k, v). (k, JString v)) fs) =
        map (\<lambda>(k, v). (k, JString v)) fs"
    by (induction fs) auto
  then show ?thesis
    by (simp only: sort_keys.simps sort_key_map_value)
qed

text \<open>The dumped commit: the four keys in alphabetical order, the file map sorted by path.\<close>

lemma sort_keys_commit_dict:
  "sort_keys (commit_dict c) =
     JObject [(''files'', JObject (map (\<lambda>(k, v). (k, JString v)) (sort_key fst (files c)))),
              (''message'', JString (message c)),
              (''parent'', (case parent c of None \<Rightarrow> JNull | Some p \<Rightarrow> JString p)),
              (''timestamp'', JString (timestamp c))]"
proof -
  have p: "sort_keys (case parent c of None \<Rightarrow> JNull | Some p \<Rightarrow> JString p) =
           (case parent c of None \<Rightarrow> JNull | Some p \<Rightarrow> JString p)"
    by (cases "parent c") simp_all
  show ?thesis
    unfolding commit_dict_def
    by (simp add: p sort_keys_files del: sort_keys.simps(1)
        add: sort_keys.simps(1) [of "[a, b, c, d]" for a b c d])
qed

lemma commit_hash_stored:
  "commit_hash_of sha1 dumps (stored c) = commit_hash_of sha1 dumps c"
  by (simp add: commit_hash_of_def commit_data_def sort_keys_commit_dict stored_def sort_key_twice)

lemma sort_key_same_mapping:
  assumes "distinct (map fst xs)" and "distinct (map fst ys)" and "map_of xs = map_of ys"
  shows "sort_key fst xs = sort_key fst ys"
proof -
  have s: "set xs = set ys"
    using assms by (simp add: map_of_inject_set)
  have dx: "distinct xs" and dy: "distinct ys"
    using assms(1,2) by (simp_all add: distinct_map)
  have m: "mset xs = mset (sort_key fst ys)"
    using s dx dy by (simp add: set_eq_iff_mset_eq_distinct)
  have i: "inj_on fst (set xs)"
    using assms(1) by (simp add: distinct_map)
  show ?thesis
    by (rule sort_key_inj_key_eq [OF m i]) simp
qed

lemma commit_hash_same_mapping:
  assumes "message c1 = message c2" and "timestamp c1 = timestamp c2" and "parent c1 = parent c2"
    and "distinct (map fst (files c1))" and "distinct (map fst (files c2))"
    and "map_of (files c1) = map_of (files c2)"
  shows "commit_hash_of sha1 dumps c1 = commit_hash_of sha1 dumps c2"
  using assms sort_key_same_mapping [of "files c1" "files c2"]
  by (simp add: commit_hash_of_def commit_data_def sort_keys_commit_dict)

lemma content_addressed_commit:
  assumes "content_addressed sha1 dumps r"
  shows "content_addressed sha1 dumps (snd (commit sha1 dumps now msg r))"
  using assms
  by (auto simp add: commit_def content_addressed_def commit_hash_stored
      read_index_def write_index_def update_branch_def py_print_def Let_def
      split: option.splits sum.splits node.splits if_splits prod.splits)

text \<open>
  C3: the text that is hashed lists the keys of the commit and the paths of its file map
  in sorted order, so it does not depend on the order in which the index was filled.
  Hence the record read back from a commit file hashes to the hash of the commit that was
  written; \<^verbatim>\<open>commit\<close> keeps every commit file named by the hash of the record it holds;
  and two commits with the same message, time, parent and the same file mapping have the
  same hash, whatever the order of their entries.
\<close>

theorem commit_hash_canonical:
  "commit_hash_of sha1 dumps (stored c) = commit_hash_of sha1 dumps c \<and>
   sorted (map fst (files (stored c))) \<and>
   (content_addressed sha1 dumps r \<longrightarrow>
      content_addressed sha1 dumps (snd (commit sha1 dumps now msg r))) \<and>
   (message c1 = message c2 \<and> timestamp c1 = timestamp c2 \<and> parent c1 = parent c2 \<and>
    distinct (map fst (files c1)) \<and> distinct (map fst (files c2)) \<and>
    map_of (files c1) = map_of (files c2) \<longrightarrow>
      commit_hash_of sha1 dumps c1 = commit_hash_of sha1 dumps c2)"
  using commit_hash_stored [of sha1 dumps c] content_addressed_commit [of sha1 dumps r now msg]
    commit_hash_same_mapping [of c1 c2 sha1 dumps]
  by (simp add: stored_def)

theorem commit_hash_canonical_witness:
  "content_addressed id (\<lambda>j. ''c0ffee1234'') repo_staged \<and>
   content_addressed id (\<lambda>j. ''c0ffee1234'')
     (snd (commit id (\<lambda>j. ''c0ffee1234'') ''2024-01-02T00:00:00'' ''second'' repo_staged)) \<and>
   map_of [(''b'', ''1''), (''a'', ''2'')] = map_of [(''a'', ''2''), (''b'', ''1'')] \<and>
   commit_hash_of id (\<lambda>j. case j of JObject ((k, JObject fs) # ms) \<Rightarrow> concat (map fst fs) | _ \<Rightarrow> [])
     \<lparr>message = ''m'', timestamp = ''t'', files = [(''b'', ''1''), (''a'', ''2'')], parent = None\<rparr> =
   commit_hash_of id (\<lambda>j. case j of JObject ((k, JObject fs) # ms) \<Rightarrow> concat (map fst fs) | _ \<Rightarrow> [])
     \<lparr>message = ''m'', timestamp = ''t'', files = [(''a'', ''2''), (''b'', ''1'')], parent = None\<rparr>"
proof -
  have ca: "content_addressed id (\<lambda>j. ''c0ffee1234'') repo_staged"
    by (simp add: content_addressed_def repo_staged_def commit_hash_of_def commit_data_def)
  have m: "map_of [(''b'', ''1''), (''a'', ''2'')] = map_of [(''a'', ''2''), (''b'', ''1'')]"
    by (rule ext) simp
  show ?thesis
    using ca m
      commit_hash_canonical [of id "\<lambda>j. ''c0ffee1234''" undefined repo_staged
        "''2024-01-02T00:00:00''" "''second''" undefined undefined]
      commit_hash_canonical [of id
        "\<lambda>j. case j of JObject ((k, JObject fs) # ms) \<Rightarrow> concat (map fst fs) | _ \<Rightarrow> []"
        "\<lparr>message = ''m'', timestamp = ''t'', files = [(''b'', ''1''), (''a'', ''2'')], parent = None\<rparr>"
        repo_staged "''t''" "''m''"
        "\<lparr>message = ''m'', timestamp = ''t'', files = [(''b'', ''1''), (''a'', ''2'')], parent = None\<rparr>"
        "\<lparr>message = ''m'', timestamp = ''t'', files = [(''a'', ''2''), (''b'', ''1'')], parent = None\<rparr>"]
    by simp
qed

subsection \<open>The walk of log ends\<close>





text \<open>
  \<^verbatim>\<open>commit\<close> keeps the parent links well-founded as long as the hash of the new commit is
  not the current commit or one of its ancestors, which is what a digest of the commit's
  own text, parent included, gives in practice.
\<close>

lemma commit_keeps_parents_wellfounded:
  assumes w: "wf (parent_rel (commits r))"
    and fresh: "\<And>p. get_current_commit r = Inr (Some p) \<Longrightarrow>
        (commit_hash_of sha1 dumps
           \<lparr>message = msg, timestamp = now @ ''Z'', files = read_index r, parent = Some p\<rparr>, p)
          \<notin> (parent_rel (commits r))\<^sup>*"
  shows "wf (parent_rel (commits (snd (commit sha1 dumps now msg r))))"
proof (cases "read_index r = []")
  case True
  then show ?thesis using w by (simp add: commit_def py_print_def)
next
  case False
  show ?thesis
  proof (cases "get_current_commit r")
    case (Inl e)
    with False w show ?thesis by (simp add: commit_def)
  next
    case (Inr pc)
    define c where "c = \<lparr>message = msg, timestamp = now @ ''Z'', files = read_index r, parent = pc\<rparr>"
    define h where "h = commit_hash_of sha1 dumps c"
    define cs where "cs = (commits r)(h \<mapsto> stored c)"
    have cm: "commits (snd (commit sha1 dumps now msg r)) = cs"
      using False Inr
      by (auto simp add: commit_def Let_def c_def h_def cs_def update_branch_def write_index_def
          py_print_def split: option.splits node.splits prod.splits)
    define old where "old = {(p, k). (p, k) \<in> parent_rel (commits r) \<and> k \<noteq> h}"
    have sub: "old \<subseteq> parent_rel (commits r)"
      by (auto simp add: old_def)
    have wo: "wf old"
      using w sub by (rule wf_subset)
    show ?thesis
    proof (cases pc)
      case None
      have "parent_rel cs \<subseteq> old"
        by (auto simp add: parent_rel_def cs_def old_def stored_def c_def None split: if_splits)
      with wo have "wf (parent_rel cs)" by (rule wf_subset)
      then show ?thesis by (simp add: cm)
    next
      case (Some p)
      have "(h, p) \<notin> (parent_rel (commits r))\<^sup>*"
        using fresh [of p] Inr Some by (simp add: h_def c_def)
      moreover have "old\<^sup>* \<subseteq> (parent_rel (commits r))\<^sup>*"
        using sub by (rule rtrancl_mono)
      ultimately have "(h, p) \<notin> old\<^sup>*" by blast
      with wo have "wf (insert (p, h) old)"
        by (simp add: wf_insert)
      moreover have "parent_rel cs \<subseteq> insert (p, h) old"
        by (auto simp add: parent_rel_def cs_def old_def stored_def c_def Some split: if_splits)
      ultimately have "wf (parent_rel cs)" by (rule wf_subset)
      then show ?thesis by (simp add: cm)
    qed
  qed
qed





subsection \<open>status\<close>















end
